theory Spec2Isabelle
  imports Main "HOL-Library.Word"
begin

unbundle bit_operations_syntax

section \<open>Data model\<close>

text \<open>
  The decoders of \<^verbatim>\<open>src/pages/blog/varint_decode.md\<close> read a \<^verbatim>\<open>Uint8Array\<close>
  (a list of bytes) and build the result in an 8-byte \<^verbatim>\<open>ArrayBuffer\<close> seen through
  two aliased views: \<^verbatim>\<open>Uint32Array\<close> (two 32-bit lanes) and \<^verbatim>\<open>BigUint64Array\<close>
  (one 64-bit element). The buffer is modelled by its two lanes; on the little-endian
  layout of the typed arrays lane 0 is the low half of the 64-bit element.
\<close>

type_synonym byte = "8 word"

record scratch =
  lane0 :: "32 word"
  lane1 :: "32 word"

text \<open>\<^verbatim>\<open>new ArrayBuffer(8)\<close>: eight zero bytes.\<close>

definition new_scratch :: scratch where
  "new_scratch = \<lparr>lane0 = 0, lane1 = 0\<rparr>"

text \<open>\<^verbatim>\<open>U32_VIEW[k] = x\<close>: a store outside the two elements is ignored by a typed array.\<close>

definition U32_store :: "nat \<Rightarrow> 32 word \<Rightarrow> scratch \<Rightarrow> scratch" where
  "U32_store k x b =
     (if k = 0 then b\<lparr>lane0 := x\<rparr> else if k = 1 then b\<lparr>lane1 := x\<rparr> else b)"

text \<open>\<^verbatim>\<open>U64_VIEW[0] = 0n\<close> and the read \<^verbatim>\<open>U64_VIEW[0]\<close>.\<close>

definition U64_store :: "64 word \<Rightarrow> scratch \<Rightarrow> scratch" where
  "U64_store x b = b\<lparr>lane0 := ucast x, lane1 := ucast (drop_bit 32 x)\<rparr>"

definition U64_load :: "scratch \<Rightarrow> 64 word" where
  "U64_load b = push_bit 32 (ucast (lane1 b)) OR ucast (lane0 b)"

text \<open>
  The locals of the loop. \<^verbatim>\<open>intermediate\<close> only ever holds the result of a bitwise
  operator, an int32, and is only read by bitwise operators and by the store into the
  \<^verbatim>\<open>Uint32Array\<close>, which keeps its 32 bits: it is a 32-bit word. \<^verbatim>\<open>position\<close> is a
  JavaScript number that takes the value -4 in \<^verbatim>\<open>jsDecodeV4\<close>: it is an \<open>int\<close>.
\<close>

record locals =
  intermediate :: "32 word"
  position :: int
  view :: scratch

datatype error = MaximumSizeReached | MaxLengthReached | TypeErrorUndefined

text \<open>
  \<^verbatim>\<open>x << position\<close> on JavaScript numbers: the shift count is the low five bits of
  \<^verbatim>\<open>position\<close>, the result is truncated to 32 bits.
\<close>

definition js_shl :: "32 word \<Rightarrow> int \<Rightarrow> 32 word" where
  "js_shl x p = push_bit (nat (p mod 32)) x"

text \<open>\<^verbatim>\<open>Number(i > 3)\<close>\<close>

definition Number_gt3 :: "nat \<Rightarrow> nat" where
  "Number_gt3 i = (if i > 3 then 1 else 0)"

section \<open>jsDecodeV4\<close>

text \<open>
  Lines 468 to 481 of the loop body: the OR of the seven value bits, the flush when
  \<^verbatim>\<open>position === 28\<close>, and the unconditional \<^verbatim>\<open>position += 7\<close>.
\<close>

definition accumulateV4 :: "byte \<Rightarrow> locals \<Rightarrow> locals" where
  "accumulateV4 b s =
     (let s1 = s\<lparr>intermediate := intermediate s OR js_shl (ucast (b AND 0x7F)) (position s)\<rparr>;
          s2 = (if position s1 = 28
                then s1\<lparr>view := U32_store 0 (intermediate s1) (view s1),
                        intermediate := ucast (drop_bit 3 b) AND 0x07,
                        position := - 4\<rparr>
                else s1)
      in s2\<lparr>position := position s2 + 7\<rparr>)"

text \<open>Line 487: \<^verbatim>\<open>U32_VIEW[Number(i > 3)] = intermediate\<close>.\<close>

definition finishV4 :: "nat \<Rightarrow> locals \<Rightarrow> locals" where
  "finishV4 i s = s\<lparr>view := U32_store (Number_gt3 i) (intermediate s) (view s)\<rparr>"

text \<open>
  The \<^verbatim>\<open>for\<close> loop from index \<open>i\<close> over the bytes not yet read. The result is the
  thrown error, if any, and the locals (with the scratch buffer) the loop leaves.
\<close>

fun loopV4 :: "nat \<Rightarrow> byte list \<Rightarrow> locals \<Rightarrow> error option \<times> locals" where
  "loopV4 i [] s = (None, s)"
| "loopV4 i (b # rest) s =
     (if i = 11 then (Some MaximumSizeReached, s)
      else let s' = accumulateV4 b s
           in if b AND 0x80 \<noteq> 0x80 then (None, finishV4 i s')
              else loopV4 (Suc i) rest s')"

text \<open>
  The function takes the module-level buffer as earlier calls left it and returns it
  with the result, which is the thrown error or the 64-bit element.
\<close>

definition jsDecodeV4 :: "scratch \<Rightarrow> byte list \<Rightarrow> (error + 64 word) \<times> scratch" where
  "jsDecodeV4 AB input =
     (case loopV4 0 input \<lparr>intermediate = 0, position = 0, view = U64_store 0 AB\<rparr> of
        (Some e, s) \<Rightarrow> (Inl e, view s)
      | (None, s) \<Rightarrow> (Inr (U64_load (view s)), view s))"

section \<open>jsDecodeV1, jsDecodeV2, jsDecodeV3\<close>

text \<open>
  The three earlier versions have the same loop body (lines 210 to 224, 309 to 323 and
  388 to 402): the flush sets \<^verbatim>\<open>position = 3\<close> and the \<^verbatim>\<open>else\<close> branch adds 7.
\<close>

definition accumulateV1 :: "byte \<Rightarrow> locals \<Rightarrow> locals" where
  "accumulateV1 b s =
     (let s1 = s\<lparr>intermediate := intermediate s OR js_shl (ucast (b AND 0x7F)) (position s)\<rparr>
      in if position s1 = 28
         then s1\<lparr>view := U32_store 0 (intermediate s1) (view s1),
                 intermediate := ucast (drop_bit 3 b) AND 0x07,
                 position := 3\<rparr>
         else s1\<lparr>position := position s1 + 7\<rparr>)"

definition accumulateV2 :: "byte \<Rightarrow> locals \<Rightarrow> locals" where
  "accumulateV2 b s =
     (let s1 = s\<lparr>intermediate := intermediate s OR js_shl (ucast (b AND 0x7F)) (position s)\<rparr>
      in if position s1 = 28
         then s1\<lparr>view := U32_store 0 (intermediate s1) (view s1),
                 intermediate := ucast (drop_bit 3 b) AND 0x07,
                 position := 3\<rparr>
         else s1\<lparr>position := position s1 + 7\<rparr>)"

definition accumulateV3 :: "byte \<Rightarrow> locals \<Rightarrow> locals" where
  "accumulateV3 b s =
     (let s1 = s\<lparr>intermediate := intermediate s OR js_shl (ucast (b AND 0x7F)) (position s)\<rparr>
      in if position s1 = 28
         then s1\<lparr>view := U32_store 0 (intermediate s1) (view s1),
                 intermediate := ucast (drop_bit 3 b) AND 0x07,
                 position := 3\<rparr>
         else s1\<lparr>position := position s1 + 7\<rparr>)"

text \<open>Lines 230, 329 and 408: the store of the last word.\<close>

definition finishV1 :: "nat \<Rightarrow> locals \<Rightarrow> locals" where
  "finishV1 i s = s\<lparr>view := U32_store (Number_gt3 i) (intermediate s) (view s)\<rparr>"

definition finishV2 :: "nat \<Rightarrow> locals \<Rightarrow> locals" where
  "finishV2 i s = s\<lparr>view := U32_store (Number_gt3 i) (intermediate s) (view s)\<rparr>"

definition finishV3 :: "nat \<Rightarrow> locals \<Rightarrow> locals" where
  "finishV3 i s = s\<lparr>view := U32_store (Number_gt3 i) (intermediate s) (view s)\<rparr>"

fun loopV1 :: "nat \<Rightarrow> byte list \<Rightarrow> locals \<Rightarrow> error option \<times> locals" where
  "loopV1 i [] s = (None, s)"
| "loopV1 i (b # rest) s =
     (if i = 11 then (Some MaximumSizeReached, s)
      else let s' = accumulateV1 b s
           in if b AND 0x80 \<noteq> 0x80 then (None, finishV1 i s')
              else loopV1 (Suc i) rest s')"

text \<open>
  \<^verbatim>\<open>jsDecodeV2\<close> reads \<^verbatim>\<open>input.length\<close> at every test of the loop and \<^verbatim>\<open>jsDecodeV3\<close>
  reads it once before the loop. Nothing changes the length of the input during a call,
  so both loops run over the same list of bytes.
\<close>

fun loopV2 :: "nat \<Rightarrow> byte list \<Rightarrow> locals \<Rightarrow> error option \<times> locals" where
  "loopV2 i [] s = (None, s)"
| "loopV2 i (b # rest) s =
     (if i = 11 then (Some MaximumSizeReached, s)
      else let s' = accumulateV2 b s
           in if b AND 0x80 \<noteq> 0x80 then (None, finishV2 i s')
              else loopV2 (Suc i) rest s')"

fun loopV3 :: "nat \<Rightarrow> byte list \<Rightarrow> locals \<Rightarrow> error option \<times> locals" where
  "loopV3 i [] s = (None, s)"
| "loopV3 i (b # rest) s =
     (if i = 11 then (Some MaximumSizeReached, s)
      else let s' = accumulateV3 b s
           in if b AND 0x80 \<noteq> 0x80 then (None, finishV3 i s')
              else loopV3 (Suc i) rest s')"

text \<open>
  \<^verbatim>\<open>jsDecodeV1\<close> allocates its buffer and both views at every call; the buffer is not
  reachable after the call, so the function returns the result only.
\<close>

definition jsDecodeV1 :: "byte list \<Rightarrow> error + 64 word" where
  "jsDecodeV1 input =
     (case loopV1 0 input \<lparr>intermediate = 0, position = 0, view = new_scratch\<rparr> of
        (Some e, s) \<Rightarrow> Inl e
      | (None, s) \<Rightarrow> Inr (U64_load (view s)))"

definition jsDecodeV2 :: "scratch \<Rightarrow> byte list \<Rightarrow> (error + 64 word) \<times> scratch" where
  "jsDecodeV2 AB input =
     (case loopV2 0 input \<lparr>intermediate = 0, position = 0, view = U64_store 0 AB\<rparr> of
        (Some e, s) \<Rightarrow> (Inl e, view s)
      | (None, s) \<Rightarrow> (Inr (U64_load (view s)), view s))"

definition jsDecodeV3 :: "scratch \<Rightarrow> byte list \<Rightarrow> (error + 64 word) \<times> scratch" where
  "jsDecodeV3 AB input =
     (case loopV3 0 input \<lparr>intermediate = 0, position = 0, view = U64_store 0 AB\<rparr> of
        (Some e, s) \<Rightarrow> (Inl e, view s)
      | (None, s) \<Rightarrow> (Inr (U64_load (view s)), view s))"

section \<open>bigintDecode\<close>

text \<open>
  Lines 79 to 96. \<^verbatim>\<open>value\<close> is a BigInt, an unbounded integer. A read past the end
  of the buffer gives \<^verbatim>\<open>undefined\<close>, and \<^verbatim>\<open>BigInt(undefined)\<close> throws a TypeError.
  The test \<^verbatim>\<open>i > 10\<close> comes after the increment and before the test of the
  continuation bit.
\<close>

fun bigintLoop :: "nat \<Rightarrow> byte list \<Rightarrow> int \<Rightarrow> nat \<Rightarrow> error + (int \<times> nat)" where
  "bigintLoop i [] val len = Inl TypeErrorUndefined"
| "bigintLoop i (currentByte # rest) val len =
     (let val' = val OR push_bit len (uint (currentByte AND 0x7F));
          len' = len + 7;
          i' = i + 1
      in if i' > 10 then Inl MaxLengthReached
         else if currentByte AND 0x80 \<noteq> 0x80 then Inr (val', i')
         else bigintLoop i' rest val' len')"

definition bigintDecode :: "byte list \<Rightarrow> error + (int \<times> nat)" where
  "bigintDecode buffer = bigintLoop 0 buffer 0 0"

section \<open>Basic facts\<close>

lemma U64_store_zero: "U64_store 0 AB = new_scratch"
  by (simp add: U64_store_def new_scratch_def)

lemma U64_load_new_scratch: "U64_load new_scratch = 0"
  by (simp add: U64_load_def new_scratch_def)

lemma accumulateV3_V4: "accumulateV3 b s = accumulateV4 b s"
  by (simp add: accumulateV3_def accumulateV4_def Let_def)

lemma accumulateV2_V3: "accumulateV2 b s = accumulateV3 b s"
  by (simp add: accumulateV2_def accumulateV3_def)

lemma accumulateV1_V2: "accumulateV1 b s = accumulateV2 b s"
  by (simp add: accumulateV1_def accumulateV2_def)

lemma loopV3_V4: "loopV3 i input s = loopV4 i input s"
  by (induction input arbitrary: i s)
    (simp_all add: accumulateV3_V4 finishV3_def finishV4_def Let_def)

lemma loopV2_V3: "loopV2 i input s = loopV3 i input s"
  by (induction input arbitrary: i s)
    (simp_all add: accumulateV2_V3 finishV2_def finishV3_def Let_def)

lemma loopV1_V2: "loopV1 i input s = loopV2 i input s"
  by (induction input arbitrary: i s)
    (simp_all add: accumulateV1_V2 finishV1_def finishV2_def Let_def)

section \<open>The loop of jsDecodeV4 in closed form\<close>

text \<open>
  While every byte read has the continuation bit and the index stays below 11, the loop
  is the fold of the loop body over the bytes; a byte without the bit ends it with the
  store of the last word. The only flush is at index 4: before it \<^verbatim>\<open>position\<close> is a
  multiple of 7 below 28, after it \<^verbatim>\<open>position\<close> is 3 more than a multiple of 7.
\<close>

lemma accumulateV4_no_flush:
  "position s \<noteq> 28 \<Longrightarrow>
   accumulateV4 b s = s\<lparr>intermediate := intermediate s OR js_shl (ucast (b AND 0x7F)) (position s),
                         position := position s + 7\<rparr>"
  by (simp add: accumulateV4_def Let_def)

lemma accumulateV4_flush:
  "position s = 28 \<Longrightarrow>
   accumulateV4 b s = s\<lparr>view := (view s)\<lparr>lane0 := intermediate s OR push_bit 28 (ucast (b AND 0x7F))\<rparr>,
                         intermediate := ucast (drop_bit 3 b) AND 0x07,
                         position := 3\<rparr>"
  by (simp add: accumulateV4_def Let_def U32_store_def js_shl_def)

lemma loopV4_terminal:
  "\<forall>b\<in>set pre. b AND 0x80 = 0x80 \<Longrightarrow> t AND 0x80 \<noteq> 0x80 \<Longrightarrow> i + length pre \<le> 10 \<Longrightarrow>
   loopV4 i (pre @ t # rest) s =
     (None, finishV4 (i + length pre) (accumulateV4 t (foldl (\<lambda>s b. accumulateV4 b s) s pre)))"
proof (induction pre arbitrary: i s)
  case Nil
  then show ?case by (simp add: Let_def)
next
  case (Cons a pre)
  from Cons.prems have "loopV4 (Suc i) (pre @ t # rest) (accumulateV4 a s) =
     (None, finishV4 (Suc i + length pre)
        (accumulateV4 t (foldl (\<lambda>s b. accumulateV4 b s) (accumulateV4 a s) pre)))"
    by (intro Cons.IH) simp_all
  with Cons.prems show ?case by (simp add: Let_def)
qed

lemma loopV4_all_continuation:
  "\<forall>b\<in>set input. b AND 0x80 = 0x80 \<Longrightarrow> i + length input \<le> 11 \<Longrightarrow>
   loopV4 i input s = (None, foldl (\<lambda>s b. accumulateV4 b s) s input)"
proof (induction input arbitrary: i s)
  case Nil
  then show ?case by simp
next
  case (Cons a input)
  from Cons.prems have "loopV4 (Suc i) input (accumulateV4 a s) =
     (None, foldl (\<lambda>s b. accumulateV4 b s) (accumulateV4 a s) input)"
    by (intro Cons.IH) simp_all
  with Cons.prems show ?case by (simp add: Let_def)
qed

lemma fold_before_flush:
  "position s = 7 * int k \<Longrightarrow> k + length pre \<le> 4 \<Longrightarrow>
   view (foldl (\<lambda>s b. accumulateV4 b s) s pre) = view s
   \<and> position (foldl (\<lambda>s b. accumulateV4 b s) s pre) = 7 * int (k + length pre)"
proof (induction pre arbitrary: s k)
  case Nil
  then show ?case by simp
next
  case (Cons a pre)
  from Cons.prems have ne: "position s \<noteq> 28" by simp
  have p: "position (accumulateV4 a s) = 7 * int (Suc k)"
    using Cons.prems by (simp add: accumulateV4_no_flush [OF ne])
  have v: "view (accumulateV4 a s) = view s"
    by (simp add: accumulateV4_no_flush [OF ne])
  from Cons.IH [OF p] Cons.prems v show ?case by simp
qed

lemma fold_after_flush:
  "position s mod 7 = 3 \<Longrightarrow> view (foldl (\<lambda>s b. accumulateV4 b s) s xs) = view s"
proof (induction xs arbitrary: s)
  case Nil
  then show ?case by simp
next
  case (Cons a xs)
  from Cons.prems have ne: "position s \<noteq> 28" by auto
  have p: "position (accumulateV4 a s) mod 7 = 3"
    using Cons.prems by (simp add: accumulateV4_no_flush [OF ne])
  have v: "view (accumulateV4 a s) = view s"
    by (simp add: accumulateV4_no_flush [OF ne])
  from Cons.IH [OF p] v show ?case by simp
qed

lemma U64_load_low: "U64_load \<lparr>lane0 = w, lane1 = 0\<rparr> = ucast w"
  by (simp add: U64_load_def)

lemma ucast_32_64_less: "(ucast (w :: 32 word) :: 64 word) < 2 ^ 32"
proof -
  have "unat (ucast w :: 64 word) = take_bit 64 (unat w)" by (simp add: unsigned_ucast_eq)
  moreover have "unat w < 2 ^ 32" using unsigned_less [of w] by simp
  ultimately have "unat (ucast w :: 64 word) < 2 ^ 32"
    by (simp add: take_bit_eq_mod)
  then show ?thesis by (simp add: word_less_nat_alt)
qed

text \<open>The first five bytes, when all are read: the flush at index 4 and the reseed.\<close>

lemma five_bytes:
  "accumulateV4 b4 (accumulateV4 b3 (accumulateV4 b2 (accumulateV4 b1 (accumulateV4 b0
      \<lparr>intermediate = 0, position = 0, view = new_scratch\<rparr>)))) =
   \<lparr>intermediate = ucast (drop_bit 3 b4) AND 0x07, position = 3,
    view = \<lparr>lane0 = ucast (b0 AND 0x7F) OR push_bit 7 (ucast (b1 AND 0x7F))
                    OR push_bit 14 (ucast (b2 AND 0x7F)) OR push_bit 21 (ucast (b3 AND 0x7F))
                    OR push_bit 28 (ucast (b4 AND 0x7F)),
            lane1 = 0\<rparr>\<rparr>"
  by (simp add: accumulateV4_def Let_def js_shl_def U32_store_def new_scratch_def ac_simps)

section \<open>The count returned by bigintDecode\<close>

lemma bigintLoop_count:
  "bigintLoop i buf val len = Inr (v, n) \<Longrightarrow>
   i < n \<and> n \<le> 10 \<and> n - i \<le> length buf
   \<and> buf ! (n - i - 1) AND 0x80 \<noteq> 0x80
   \<and> (\<forall>j < n - i - 1. buf ! j AND 0x80 = 0x80)"
proof (induction buf arbitrary: i val len)
  case Nil
  then show ?case by simp
next
  case (Cons b buf)
  show ?case
  proof (cases "b AND 0x80 \<noteq> 0x80")
    case True
    with Cons.prems show ?thesis by (auto simp: Let_def split: if_splits)
  next
    case False
    with Cons.prems have rec: "bigintLoop (Suc i) buf
        (val OR push_bit len (uint (b AND 0x7F))) (len + 7) = Inr (v, n)"
      by (simp add: Let_def split: if_splits)
    from Cons.IH [OF rec] have ih: "Suc i < n" "n \<le> 10" "n - Suc i \<le> length buf"
      "buf ! (n - Suc i - 1) AND 0x80 \<noteq> 0x80"
      "\<forall>j < n - Suc i - 1. buf ! j AND 0x80 = 0x80" by simp_all
    from ih(1) have e: "n - i - 1 = Suc (n - Suc i - 1)" by simp
    have "\<forall>j < n - i - 1. (b # buf) ! j AND 0x80 = 0x80"
    proof (intro allI impI)
      fix j assume "j < n - i - 1"
      with ih(5) False e show "(b # buf) ! j AND 0x80 = 0x80"
        by (cases j) simp_all
    qed
    moreover have "(b # buf) ! (n - i - 1) AND 0x80 \<noteq> 0x80"
      using ih(4) e by simp
    ultimately show ?thesis using ih by simp
  qed
qed

section \<open>The claims\<close>

text \<open>
  C1. The claim: on the five bytes FF FF FF FF 0F, the LEB128 encoding of 0xFFFFFFFF,
  \<^verbatim>\<open>jsDecodeV4\<close> and \<^verbatim>\<open>jsDecodeV1\<close> return 0xFFFFFFFF. The code returns 0x1FFFFFFFF:
  at index 4 the flush stores 0xFFFFFFFF in lane 0 and the reseed \<^verbatim>\<open>(byte >>> 3) & 0x07\<close>
  of the byte 0x0F is 1, which the terminal store puts in lane 1. \<^verbatim>\<open>bigintDecode\<close>
  returns 0xFFFFFFFF on the same bytes.
\<close>

theorem C1_decode_0xFFFFFFFF:
  "fst (jsDecodeV4 new_scratch [0xFF, 0xFF, 0xFF, 0xFF, 0x0F]) = Inr 0x1FFFFFFFF
   \<and> jsDecodeV1 [0xFF, 0xFF, 0xFF, 0xFF, 0x0F] = Inr 0x1FFFFFFFF
   \<and> bigintDecode [0xFF, 0xFF, 0xFF, 0xFF, 0x0F] = Inr (0xFFFFFFFF, 5)"
  by code_simp

text \<open>
  C2. The claim: at bit position 28 the accumulator is flushed to the low word and
  reseeded with \<^verbatim>\<open>(byte >> 4) & 0x07\<close>, the byte's bits 4 to 6. The flush is as claimed;
  the reseed of the code is \<^verbatim>\<open>(byte >>> 3) & 0x07\<close>, the byte's bits 3 to 5. On the
  byte 0x0F at position 28 the code reseeds with 1, where bits 4 to 6 are 0.
\<close>

theorem C2_reseed_bits:
  "foldl (\<lambda>s b. accumulateV4 b s) \<lparr>intermediate = 0, position = 0, view = new_scratch\<rparr>
       [0xFF, 0xFF, 0xFF, 0xFF]
     = \<lparr>intermediate = 0x0FFFFFFF, position = 28, view = new_scratch\<rparr>
   \<and> accumulateV4 0x0F \<lparr>intermediate = 0x0FFFFFFF, position = 28, view = new_scratch\<rparr>
     = \<lparr>intermediate = 1, position = 3, view = \<lparr>lane0 = 0xFFFFFFFF, lane1 = 0\<rparr>\<rparr>
   \<and> (ucast (drop_bit 4 (0x0F :: byte)) AND 0x07 :: 32 word) = 0"
  by code_simp

text \<open>
  C3. The claim: eleven or more bytes that all have the continuation bit fail with the
  error "Maximum size reached", and no successful decode consumes more than ten bytes.
  The test of the code is \<^verbatim>\<open>i === 11\<close>: eleven bytes with the continuation bit return
  0, a terminal byte at index 10 is accepted (eleven bytes consumed) where
  \<^verbatim>\<open>bigintDecode\<close> throws, and the error needs twelve bytes.
\<close>

theorem C3_eleven_bytes:
  "fst (jsDecodeV4 new_scratch
      [0x80, 0x80, 0x80, 0x80, 0x80, 0x80, 0x80, 0x80, 0x80, 0x80, 0x80]) = Inr 0
   \<and> fst (jsDecodeV4 new_scratch
      [0x80, 0x80, 0x80, 0x80, 0x80, 0x80, 0x80, 0x80, 0x80, 0x80, 0x01]) = Inr 0x4000000000
   \<and> bigintDecode [0x80, 0x80, 0x80, 0x80, 0x80, 0x80, 0x80, 0x80, 0x80, 0x80, 0x01]
       = Inl MaxLengthReached
   \<and> fst (jsDecodeV4 new_scratch
      [0x80, 0x80, 0x80, 0x80, 0x80, 0x80, 0x80, 0x80, 0x80, 0x80, 0x80, 0x80])
       = Inl MaximumSizeReached"
  by code_simp

text \<open>
  C7. For every input and every content of the module-level buffer, \<^verbatim>\<open>jsDecodeV4\<close>
  and \<^verbatim>\<open>jsDecodeV3\<close> return the same result and leave the same buffer, so do
  \<^verbatim>\<open>jsDecodeV3\<close> and \<^verbatim>\<open>jsDecodeV2\<close>, and \<^verbatim>\<open>jsDecodeV1\<close> returns the result of the
  other three (the same value or the same error).
\<close>

theorem C7_versions_agree:
  "jsDecodeV4 AB input = jsDecodeV3 AB input
   \<and> jsDecodeV3 AB input = jsDecodeV2 AB input
   \<and> jsDecodeV1 input = fst (jsDecodeV2 AB input)
   \<and> jsDecodeV1 input = fst (jsDecodeV4 AB input)"
proof -
  have v43: "jsDecodeV4 AB input = jsDecodeV3 AB input"
    by (simp add: jsDecodeV4_def jsDecodeV3_def loopV3_V4)
  have v32: "jsDecodeV3 AB input = jsDecodeV2 AB input"
    by (simp add: jsDecodeV3_def jsDecodeV2_def loopV2_V3)
  have v12: "jsDecodeV1 input = fst (jsDecodeV2 AB input)"
    by (simp add: jsDecodeV1_def jsDecodeV2_def loopV1_V2 U64_store_zero
        split: prod.splits option.splits)
  from v43 v32 v12 show ?thesis by simp
qed

text \<open>
  C8. On the empty input \<^verbatim>\<open>jsDecodeV2\<close>, \<^verbatim>\<open>jsDecodeV3\<close> and \<^verbatim>\<open>jsDecodeV4\<close> return 0
  and throw nothing, whatever the buffer held before; the result is the one of the
  one-byte encoding of zero.
\<close>

theorem C8_empty_input:
  "fst (jsDecodeV2 AB []) = Inr 0 \<and> fst (jsDecodeV3 AB []) = Inr 0
   \<and> fst (jsDecodeV4 AB []) = Inr 0
   \<and> fst (jsDecodeV4 AB []) = fst (jsDecodeV4 AB [0x00])"
  by (simp add: jsDecodeV2_def jsDecodeV3_def jsDecodeV4_def U64_store_zero
      U64_load_new_scratch accumulateV4_def finishV4_def js_shl_def U32_store_def
      Number_gt3_def U64_load_def new_scratch_def)

text \<open>
  C9. The result of \<^verbatim>\<open>jsDecodeV4\<close>, and the buffer it leaves, depend on the input
  bytes only and not on what the module-level buffer held at entry; in particular a
  call that follows any earlier call returns what a call on a fresh buffer returns.
\<close>

theorem C9_scratch_independent:
  "jsDecodeV4 AB input = jsDecodeV4 AB' input
   \<and> fst (jsDecodeV4 (snd (jsDecodeV4 AB earlier)) input)
       = fst (jsDecodeV4 new_scratch input)"
  by (simp add: jsDecodeV4_def U64_store_zero)

text \<open>
  C10. When the first byte without the continuation bit is at index 3 or below, the loop
  of \<^verbatim>\<open>jsDecodeV4\<close> leaves lane 1 of the buffer as it found it, whatever it held (only
  lane 0 is stored to); after the zeroing at entry, lane 1 is 0 at the end of the call
  and the value returned is below \<open>2 ^ 32\<close>.
\<close>

theorem C10_low_lane_only:
  assumes cont: "\<forall>b\<in>set pre. b AND 0x80 = 0x80"
    and stop: "t AND 0x80 \<noteq> 0x80"
    and len: "length pre \<le> 3"
  shows "lane1 (view (snd (loopV4 0 (pre @ t # rest)
            \<lparr>intermediate = 0, position = 0, view = \<lparr>lane0 = l, lane1 = h\<rparr>\<rparr>))) = h
         \<and> lane1 (snd (jsDecodeV4 AB (pre @ t # rest))) = 0
         \<and> (\<exists>v. fst (jsDecodeV4 AB (pre @ t # rest)) = Inr v \<and> v < 2 ^ 32)"
proof -
  have frame: "lane1 (view (snd (loopV4 0 (pre @ t # rest) s))) = lane1 (view s)
               \<and> fst (loopV4 0 (pre @ t # rest) s) = None"
    if "position s = 0" for s
  proof -
    let ?s1 = "foldl (\<lambda>s b. accumulateV4 b s) s pre"
    from that have p0: "position s = 7 * int 0" by simp
    from len have l4: "0 + length pre \<le> 4" by simp
    from fold_before_flush [OF p0 l4]
    have v1: "view ?s1 = view s" and p1: "position ?s1 = 7 * int (length pre)" by simp_all
    from p1 len have ne: "position ?s1 \<noteq> 28" by simp
    have v2: "view (accumulateV4 t ?s1) = view s"
      by (simp add: accumulateV4_no_flush [OF ne] v1)
    from len have l10: "0 + length pre \<le> 10" by simp
    from len have n0: "Number_gt3 (length pre) = 0" by (simp add: Number_gt3_def)
    show ?thesis
      by (simp add: loopV4_terminal [OF cont stop l10] finishV4_def n0 U32_store_def v2)
  qed
  have a: "lane1 (view (snd (loopV4 0 (pre @ t # rest)
            \<lparr>intermediate = 0, position = 0, view = \<lparr>lane0 = l, lane1 = h\<rparr>\<rparr>))) = h"
    using frame [of "\<lparr>intermediate = 0, position = 0, view = \<lparr>lane0 = l, lane1 = h\<rparr>\<rparr>"]
    by simp
  obtain s' where lp: "loopV4 0 (pre @ t # rest)
      \<lparr>intermediate = 0, position = 0, view = new_scratch\<rparr> = (None, s')"
    and hi: "lane1 (view s') = 0"
    using frame [of "\<lparr>intermediate = 0, position = 0, view = new_scratch\<rparr>"]
    by (cases "loopV4 0 (pre @ t # rest) \<lparr>intermediate = 0, position = 0, view = new_scratch\<rparr>")
      (simp add: new_scratch_def)
  have res: "jsDecodeV4 AB (pre @ t # rest) = (Inr (U64_load (view s')), view s')"
    by (simp add: jsDecodeV4_def U64_store_zero lp)
  have "view s' = \<lparr>lane0 = lane0 (view s'), lane1 = 0\<rparr>" using hi by simp
  then have "U64_load (view s') = ucast (lane0 (view s'))"
    using U64_load_low by metis
  then have "U64_load (view s') < 2 ^ 32"
    using ucast_32_64_less [of "lane0 (view s')"] by simp
  with a res hi show ?thesis by simp
qed

theorem C10_low_lane_only_witness:
  "list_all (\<lambda>b. b AND 0x80 = 0x80) [0xFF, 0xFF, 0xFF :: byte]
   \<and> (0x7F :: byte) AND 0x80 \<noteq> 0x80
   \<and> length [0xFF, 0xFF, 0xFF :: byte] \<le> 3
   \<and> lane1 (view (snd (loopV4 0 ([0xFF, 0xFF, 0xFF] @ 0x7F # [0x55])
            \<lparr>intermediate = 0, position = 0, view = \<lparr>lane0 = 0x11, lane1 = 0xABCD\<rparr>\<rparr>))) = 0xABCD
   \<and> lane1 (snd (jsDecodeV4 \<lparr>lane0 = 0x11, lane1 = 0xABCD\<rparr> ([0xFF, 0xFF, 0xFF] @ 0x7F # [0x55]))) = 0
   \<and> (\<exists>v. fst (jsDecodeV4 \<lparr>lane0 = 0x11, lane1 = 0xABCD\<rparr> ([0xFF, 0xFF, 0xFF] @ 0x7F # [0x55])) = Inr v
        \<and> v < 2 ^ 32)"
proof -
  have h1: "\<forall>b\<in>set [0xFF, 0xFF, 0xFF :: byte]. b AND 0x80 = 0x80" by simp
  have h2: "(0x7F :: byte) AND 0x80 \<noteq> 0x80" by simp
  have h3: "length [0xFF, 0xFF, 0xFF :: byte] \<le> 3" by simp
  have h0: "list_all (\<lambda>b. b AND 0x80 = 0x80) [0xFF, 0xFF, 0xFF :: byte]" by simp
  from C10_low_lane_only [OF h1 h2 h3, of "[0x55]" "0x11" "0xABCD"
      "\<lparr>lane0 = 0x11, lane1 = 0xABCD\<rparr>"] h0 h2 h3
  show ?thesis by blast
qed

text \<open>
  C6. When the first byte without the continuation bit is at index \<open>i \<le> 10\<close>
  (\<open>i\<close> is the length of \<open>pre\<close>), the buffer \<^verbatim>\<open>jsDecodeV4\<close> leaves is the buffer after
  the loop body has run on the bytes up to and including that byte, with the accumulator
  stored in lane 1 if \<open>i > 3\<close> and in lane 0 otherwise.
\<close>

theorem C6_lane_selection:
  assumes cont: "\<forall>b\<in>set pre. b AND 0x80 = 0x80"
    and stop: "t AND 0x80 \<noteq> 0x80"
    and len: "length pre \<le> 10"
  shows "snd (jsDecodeV4 AB (pre @ t # rest)) =
     (let acc = accumulateV4 t (foldl (\<lambda>s b. accumulateV4 b s)
                  \<lparr>intermediate = 0, position = 0, view = new_scratch\<rparr> pre)
      in if length pre > 3 then (view acc)\<lparr>lane1 := intermediate acc\<rparr>
         else (view acc)\<lparr>lane0 := intermediate acc\<rparr>)"
proof -
  from len have l10: "0 + length pre \<le> 10" by simp
  show ?thesis
    by (simp add: jsDecodeV4_def U64_store_zero loopV4_terminal [OF cont stop l10]
        finishV4_def Number_gt3_def U32_store_def Let_def)
qed

lemma C6_eval_hi:
  "(let acc = accumulateV4 0x7F (foldl (\<lambda>s b. accumulateV4 b s)
                  \<lparr>intermediate = 0, position = 0, view = new_scratch\<rparr> [0x80, 0x80, 0x80, 0x80])
      in if length [0x80, 0x80, 0x80, 0x80 :: byte] > 3 then (view acc)\<lparr>lane1 := intermediate acc\<rparr>
         else (view acc)\<lparr>lane0 := intermediate acc\<rparr>) = \<lparr>lane0 = 0xF0000000, lane1 = 7\<rparr>"
  by code_simp

lemma C6_eval_lo:
  "(let acc = accumulateV4 0x01 (foldl (\<lambda>s b. accumulateV4 b s)
                  \<lparr>intermediate = 0, position = 0, view = new_scratch\<rparr> [0x80])
      in if length [0x80 :: byte] > 3 then (view acc)\<lparr>lane1 := intermediate acc\<rparr>
         else (view acc)\<lparr>lane0 := intermediate acc\<rparr>) = \<lparr>lane0 = 0x80, lane1 = 0\<rparr>"
  by code_simp

theorem C6_lane_selection_witness:
  "list_all (\<lambda>b. b AND 0x80 = 0x80) [0x80, 0x80, 0x80, 0x80 :: byte]
   \<and> (0x7F :: byte) AND 0x80 \<noteq> 0x80
   \<and> length [0x80, 0x80, 0x80, 0x80 :: byte] \<le> 10
   \<and> snd (jsDecodeV4 new_scratch ([0x80, 0x80, 0x80, 0x80] @ 0x7F # []))
       = \<lparr>lane0 = 0xF0000000, lane1 = 7\<rparr>
   \<and> list_all (\<lambda>b. b AND 0x80 = 0x80) [0x80 :: byte]
   \<and> (0x01 :: byte) AND 0x80 \<noteq> 0x80
   \<and> length [0x80 :: byte] \<le> 10
   \<and> snd (jsDecodeV4 new_scratch ([0x80] @ 0x01 # [])) = \<lparr>lane0 = 0x80, lane1 = 0\<rparr>"
proof -
  have h1: "\<forall>b\<in>set [0x80, 0x80, 0x80, 0x80 :: byte]. b AND 0x80 = 0x80" by simp
  have h2: "(0x7F :: byte) AND 0x80 \<noteq> 0x80" by simp
  have h3: "length [0x80, 0x80, 0x80, 0x80 :: byte] \<le> 10" by simp
  have g1: "\<forall>b\<in>set [0x80 :: byte]. b AND 0x80 = 0x80" by simp
  have g2: "(0x01 :: byte) AND 0x80 \<noteq> 0x80" by simp
  have g3: "length [0x80 :: byte] \<le> 10" by simp
  have hi: "snd (jsDecodeV4 new_scratch ([0x80, 0x80, 0x80, 0x80] @ 0x7F # []))
       = \<lparr>lane0 = 0xF0000000, lane1 = 7\<rparr>"
    using C6_lane_selection [OF h1 h2 h3, where rest = "[]" and AB = new_scratch] C6_eval_hi by simp
  have lo: "snd (jsDecodeV4 new_scratch ([0x80] @ 0x01 # [])) = \<lparr>lane0 = 0x80, lane1 = 0\<rparr>"
    using C6_lane_selection [OF g1 g2 g3, where rest = "[]" and AB = new_scratch] C6_eval_lo by simp
  from h1 h2 h3 g1 g2 g3 hi lo show ?thesis by (simp add: list_all_iff)
qed

text \<open>
  C5, as the code has it. \<^verbatim>\<open>bigintDecode\<close> returns the pair of the value and the count
  \<open>n\<close>: whenever it returns, \<open>n\<close> is between 1 and 10, the byte at index \<open>n - 1\<close> has no
  continuation bit and every byte before it has one. The claim as stated, for every
  decoder, fails on \<^verbatim>\<open>jsDecodeV4\<close>, whose result is the value alone: it returns the
  same result on the inputs 00 and 80 00, of which one and two bytes are consumed.
\<close>

theorem C5_bigintDecode_count:
  "bigintDecode buffer = Inr (v, n) \<Longrightarrow>
   1 \<le> n \<and> n \<le> 10 \<and> n \<le> length buffer
   \<and> buffer ! (n - 1) AND 0x80 \<noteq> 0x80
   \<and> (\<forall>j < n - 1. buffer ! j AND 0x80 = 0x80)"
  using bigintLoop_count [of 0 buffer 0 0 v n] by (simp add: bigintDecode_def)

lemma C5_eval: "bigintDecode [0x80, 0x01] = Inr (128, 2)" by code_simp

theorem C5_bigintDecode_count_witness:
  "bigintDecode [0x80, 0x01] = Inr (128, 2)
   \<and> (1::nat) \<le> 2 \<and> (2::nat) \<le> 10 \<and> 2 \<le> length [0x80, 0x01 :: byte]
   \<and> [0x80, 0x01 :: byte] ! (2 - 1) AND 0x80 \<noteq> 0x80
   \<and> [0x80, 0x01 :: byte] ! 0 AND 0x80 = 0x80"
proof -
  from C5_bigintDecode_count [OF C5_eval]
  have c: "[0x80, 0x01 :: byte] ! (2 - 1) AND 0x80 \<noteq> 0x80"
    and a: "\<forall>j < 2 - 1. [0x80, 0x01 :: byte] ! j AND 0x80 = 0x80"
    and l: "2 \<le> length [0x80, 0x01 :: byte]"
    by blast+
  from a have "[0x80, 0x01 :: byte] ! 0 AND 0x80 = 0x80" by simp
  with c l C5_eval show ?thesis by simp
qed

theorem C5_jsDecodeV4_no_count:
  "fst (jsDecodeV4 new_scratch [0x00]) = Inr 0
   \<and> fst (jsDecodeV4 new_scratch [0x80, 0x00]) = Inr 0
   \<and> bigintDecode [0x00] = Inr (0, 1)
   \<and> bigintDecode [0x80, 0x00] = Inr (0, 2)"
  by code_simp

text \<open>
  C4, as the code has it. The claim: a buffer that ends before a terminal byte fails
  with a Malformed error. The fast decoders have no such error and no test for the end
  of the buffer other than the loop condition: on at most ten bytes that all have the
  continuation bit \<^verbatim>\<open>jsDecodeV4\<close> reads the bytes of the buffer only, ends and throws
  nothing. It returns 0 when there are fewer than five bytes, and otherwise the word
  flushed at index 4 (the seven value bits of bytes 0 to 3 and the low four value bits
  of byte 4) with lane 1 still 0.
\<close>

theorem C4_truncated_input:
  assumes cont: "\<forall>b\<in>set input. b AND 0x80 = 0x80"
    and len: "length input \<le> 10"
  shows "fst (jsDecodeV4 AB input) =
     Inr (if length input < 5 then 0
          else ucast (ucast (input ! 0 AND 0x7F) OR push_bit 7 (ucast (input ! 1 AND 0x7F))
                 OR push_bit 14 (ucast (input ! 2 AND 0x7F))
                 OR push_bit 21 (ucast (input ! 3 AND 0x7F))
                 OR push_bit 28 (ucast (input ! 4 AND 0x7F)) :: 32 word))"
proof -
  let ?s0 = "\<lparr>intermediate = 0, position = 0, view = new_scratch\<rparr>"
  let ?f = "\<lambda>s b. accumulateV4 b s"
  from len have l11: "0 + length input \<le> 11" by simp
  have res: "fst (jsDecodeV4 AB input) = Inr (U64_load (view (foldl ?f ?s0 input)))"
    by (simp add: jsDecodeV4_def U64_store_zero loopV4_all_continuation [OF cont l11])
  show ?thesis
  proof (cases "length input < 5")
    case True
    then have l4: "0 + length input \<le> 4" by simp
    have p0: "position ?s0 = 7 * int 0" by simp
    from fold_before_flush [OF p0 l4] have "view (foldl ?f ?s0 input) = new_scratch" by simp
    with True res show ?thesis by (simp add: U64_load_new_scratch)
  next
    case False
    then obtain b0 b1 b2 b3 b4 rest where inp: "input = b0 # b1 # b2 # b3 # b4 # rest"
      by (cases input; simp; cases "tl input"; simp; cases "tl (tl input)"; simp;
          cases "tl (tl (tl input))"; simp; cases "tl (tl (tl (tl input)))"; simp)
    let ?s5 = "accumulateV4 b4 (accumulateV4 b3 (accumulateV4 b2 (accumulateV4 b1
                 (accumulateV4 b0 ?s0))))"
    have p5: "position ?s5 mod 7 = 3" by (simp add: five_bytes)
    have "view (foldl ?f ?s0 input) = view ?s5"
      using fold_after_flush [OF p5, of rest] by (simp add: inp)
    then have "U64_load (view (foldl ?f ?s0 input)) =
       ucast (ucast (b0 AND 0x7F) OR push_bit 7 (ucast (b1 AND 0x7F))
                    OR push_bit 14 (ucast (b2 AND 0x7F)) OR push_bit 21 (ucast (b3 AND 0x7F))
                    OR push_bit 28 (ucast (b4 AND 0x7F)) :: 32 word)"
      by (simp add: five_bytes U64_load_low)
    with False res show ?thesis by (simp add: inp)
  qed
qed

lemma C4_eval:
  "(if length [0xFF, 0xFF, 0xFF, 0xFF, 0xFF :: byte] < 5 then 0
          else ucast (ucast ([0xFF, 0xFF, 0xFF, 0xFF, 0xFF :: byte] ! 0 AND 0x7F)
                 OR push_bit 7 (ucast ([0xFF, 0xFF, 0xFF, 0xFF, 0xFF :: byte] ! 1 AND 0x7F))
                 OR push_bit 14 (ucast ([0xFF, 0xFF, 0xFF, 0xFF, 0xFF :: byte] ! 2 AND 0x7F))
                 OR push_bit 21 (ucast ([0xFF, 0xFF, 0xFF, 0xFF, 0xFF :: byte] ! 3 AND 0x7F))
                 OR push_bit 28 (ucast ([0xFF, 0xFF, 0xFF, 0xFF, 0xFF :: byte] ! 4 AND 0x7F)) :: 32 word))
   = (0xFFFFFFFF :: 64 word)"
  by code_simp

theorem C4_truncated_input_witness:
  "list_all (\<lambda>b. b AND 0x80 = 0x80) [0xFF, 0xFF, 0xFF, 0xFF, 0xFF :: byte]
   \<and> length [0xFF, 0xFF, 0xFF, 0xFF, 0xFF :: byte] \<le> 10
   \<and> fst (jsDecodeV4 new_scratch [0xFF, 0xFF, 0xFF, 0xFF, 0xFF]) = Inr 0xFFFFFFFF"
proof -
  have h1: "\<forall>b\<in>set [0xFF, 0xFF, 0xFF, 0xFF, 0xFF :: byte]. b AND 0x80 = 0x80" by simp
  have h2: "length [0xFF, 0xFF, 0xFF, 0xFF, 0xFF :: byte] \<le> 10" by simp
  have "fst (jsDecodeV4 new_scratch [0xFF, 0xFF, 0xFF, 0xFF, 0xFF]) = Inr 0xFFFFFFFF"
    using C4_truncated_input [OF h1 h2, of new_scratch] C4_eval by simp
  with h1 h2 show ?thesis by (simp add: list_all_iff)
qed

theorem C4_truncated_returns_value:
  "fst (jsDecodeV4 new_scratch [0x80]) = Inr 0
   \<and> fst (jsDecodeV4 new_scratch [0xFF, 0xFF, 0xFF, 0xFF, 0xFF]) = Inr 0xFFFFFFFF"
  by code_simp

end
